theory Spec2Isabelle
  imports Complex_Main "HOL-Library.Multiset"
begin

section \<open>Four-bar linkage: the validity check and the angle solver of functions.py\<close>

text \<open>
  The source is modelled at two levels. In the exact model a Python float is a real number:
  arithmetic is exact, there is no NaN and no infinity. It carries the structure of the
  program: which list entry is deleted, which expression sits in which \<open>try\<close>, which value
  goes into which list. In the double-precision model (the definitions whose names end in
  \<open>f64\<close>) a float is a binary64 number, every operation rounds to nearest (ties to even)
  and overflows to infinity, and \<open>**\<close> raises \<open>OverflowError\<close>. It is used where rounding or
  overflow decides what the program does: the comparison of the two sums in \<open>check_valid\<close>
  and lines 93 to 110 of \<open>calculate_linkage\<close>.

  Python integers are \<open>int\<close>/\<open>nat\<close>. Every exception the source can raise is a value of
  \<open>exn\<close>; a function that can raise returns \<open>exn + 'a\<close>, with \<open>Inl\<close> the exception.
\<close>

datatype exn = ZeroDivisionError | ValueError | IndexError | OverflowError

text \<open>Sequencing of computations that may raise.\<close>

definition bnd :: "exn + 'a \<Rightarrow> ('a \<Rightarrow> exn + 'b) \<Rightarrow> exn + 'b" where
  "bnd m f = (case m of Inl e \<Rightarrow> Inl e | Inr v \<Rightarrow> f v)"

subsection \<open>Python built-ins used by the source\<close>

text \<open>\<open>max(xs)\<close> and \<open>min(xs)\<close> of a list: a left-to-right scan; \<open>ValueError\<close> on the empty list.\<close>

fun py_max :: "real list \<Rightarrow> exn + real" where
  "py_max [] = Inl ValueError"
| "py_max (x # xs) = Inr (foldl (\<lambda>m y. if y > m then y else m) x xs)"

fun py_min :: "real list \<Rightarrow> exn + real" where
  "py_min [] = Inl ValueError"
| "py_min (x # xs) = Inr (foldl (\<lambda>m y. if y < m then y else m) x xs)"

text \<open>\<open>xs.index(v)\<close>: the position of the first occurrence; \<open>ValueError\<close> when absent.\<close>

fun py_index :: "real list \<Rightarrow> real \<Rightarrow> exn + nat" where
  "py_index [] v = Inl ValueError"
| "py_index (x # xs) v = (if x = v then Inr 0 else bnd (py_index xs v) (\<lambda>i. Inr (Suc i)))"

text \<open>\<open>del xs[i]\<close> for a non-negative index; \<open>IndexError\<close> out of range.\<close>

definition py_del :: "real list \<Rightarrow> nat \<Rightarrow> exn + real list" where
  "py_del xs i = (if i < length xs then Inr (take i xs @ drop (Suc i) xs) else Inl IndexError)"

text \<open>\<open>sum(xs)\<close>: starts from 0 and adds from the left.\<close>

definition py_sum :: "real list \<Rightarrow> real" where
  "py_sum xs = foldl (+) 0 xs"

subsection \<open>check_valid\<close>

text \<open>
  The result is \<open>Some True\<close>, \<open>Some False\<close>, or \<open>None\<close> when neither branch of the final
  \<open>if/elif\<close> returns (Python then returns \<open>None\<close>). The arguments are the lengths after
  the \<open>float(...)\<close> conversions. In the second deletion \<open>pos_min - 1\<close> is only evaluated when
  \<open>pos_max < pos_min\<close>, so the subtraction on \<open>nat\<close> never truncates.
\<close>

definition check_valid :: "real \<Rightarrow> real \<Rightarrow> real \<Rightarrow> real \<Rightarrow> exn + bool option" where
  "check_valid l1 l2 l3 l4 =
    (let links = [l1, l2, l3, l4] in
     bnd (py_max links) (\<lambda>link_max.
     bnd (py_min links) (\<lambda>link_min.
     bnd (py_index links link_max) (\<lambda>pos_max.
     bnd (py_index links link_min) (\<lambda>pos_min.
     let min_max = [link_min, link_max] in
     bnd (py_del links pos_max) (\<lambda>links.
     bnd (if pos_max < pos_min then py_del links (pos_min - 1)
          else if pos_max \<ge> pos_min then py_del links pos_min
          else Inr links) (\<lambda>links.
     if py_sum min_max \<le> py_sum links then Inr (Some True)
     else if py_sum min_max > py_sum links then Inr (Some False)
     else Inr None)))))))"

subsection \<open>The math module and list indexing\<close>

definition math_radians :: "real \<Rightarrow> real" where
  "math_radians x = x * (pi / 180)"

definition math_degrees :: "real \<Rightarrow> real" where
  "math_degrees x = x * (180 / pi)"

text \<open>\<open>math.acos\<close> and \<open>math.asin\<close> raise \<open>ValueError\<close> outside \<open>[-1, 1]\<close>.\<close>

definition math_acos :: "real \<Rightarrow> exn + real" where
  "math_acos x = (if -1 \<le> x \<and> x \<le> 1 then Inr (arccos x) else Inl ValueError)"

definition math_asin :: "real \<Rightarrow> exn + real" where
  "math_asin x = (if -1 \<le> x \<and> x \<le> 1 then Inr (arcsin x) else Inl ValueError)"

text \<open>Float division \<open>x / y\<close> raises \<open>ZeroDivisionError\<close> when \<open>y\<close> is zero.\<close>

definition py_truediv :: "real \<Rightarrow> real \<Rightarrow> exn + real" where
  "py_truediv x y = (if y = 0 then Inl ZeroDivisionError else Inr (x / y))"

text \<open>\<open>xs[i]\<close>: a negative index counts from the end; \<open>IndexError\<close> out of range.\<close>

definition py_getitem :: "real list \<Rightarrow> int \<Rightarrow> exn + real" where
  "py_getitem xs i =
    (if 0 \<le> i \<and> i < int (length xs) then Inr (xs ! nat i)
     else if i < 0 \<and> - int (length xs) \<le> i then Inr (xs ! nat (int (length xs) + i))
     else Inl IndexError)"

text \<open>\<open>range(a, b)\<close> for non-negative bounds.\<close>

definition py_range :: "nat \<Rightarrow> nat \<Rightarrow> int list" where
  "py_range a b = map int [a..<b]"

subsection \<open>calculate_linkage\<close>

text \<open>
  \<open>scipy.optimize.fsolve\<close> is a library routine outside the repository. It is a
  parameter of the model: a function from the residual and the initial guess to the value it
  returns. The source takes that value as it comes: \<open>fsolve\<close> reports a failure to
  converge by a warning, not by an exception, and the source never looks at it.
\<close>

type_synonym root_finder = "(real \<Rightarrow> real) \<Rightarrow> real \<Rightarrow> real"

text \<open>The lambda \<open>freudenstein\<close> of the loop body, with the variables it closes over.\<close>

definition freudenstein :: "real \<Rightarrow> real \<Rightarrow> real \<Rightarrow> int \<Rightarrow> real \<Rightarrow> real" where
  "freudenstein L1 L2 L3 theta2 theta4 =
     L3 + L2 * cos (math_radians theta4) - L1 * cos (math_radians (of_int theta2))
        - cos (math_radians (of_int theta2 - theta4))"

text \<open>
  The \<open>try\<close> block of the loop body: it reads \<open>theta4[theta2]\<close> and appends to
  \<open>theta3\<close>. Whatever is raised inside is caught by the bare \<open>except\<close> of the caller.
\<close>

definition theta3_try ::
    "real \<Rightarrow> real \<Rightarrow> real \<Rightarrow> real \<Rightarrow> int \<Rightarrow> real list \<Rightarrow> real list \<Rightarrow> exn + real list" where
  "theta3_try l1 l2 l3 l4 theta2 theta4 theta3 =
     bnd (py_getitem theta4 theta2) (\<lambda>t4.
     if l2 * cos (math_radians (of_int (360 - theta2))) > l1 - l4 * cos (math_radians (180 - t4))
     then
       bnd (py_getitem theta4 theta2) (\<lambda>t4.
       bnd (py_truediv (l4 * sin (math_radians t4) - l2 * sin (math_radians (of_int theta2))) l3) (\<lambda>q.
       bnd (math_asin q) (\<lambda>a.
       Inr (theta3 @ [180 - a]))))
     else
       bnd (py_getitem theta4 theta2) (\<lambda>t4.
       bnd (py_truediv (l4 * sin (math_radians t4) - l2 * sin (math_radians (of_int theta2))) l3) (\<lambda>q.
       bnd (math_asin q) (\<lambda>a.
       Inr (theta3 @ [a])))))"

text \<open>
  The \<open>for theta2 in range(0, 361)\<close> loop, as a recursion over the remaining driving angles
  with the two lists as state. \<open>None\<close> is the \<open>return False\<close> of the \<open>except\<close>
  branch; \<open>Some (theta4, theta3)\<close> is the state when the loop has run to its end.
\<close>

fun solve_loop ::
    "root_finder \<Rightarrow> real \<Rightarrow> real \<Rightarrow> real \<Rightarrow> real \<Rightarrow> real \<Rightarrow> real \<Rightarrow> real \<Rightarrow> real \<Rightarrow>
     int list \<Rightarrow> real list \<Rightarrow> real list \<Rightarrow> (real list \<times> real list) option" where
  "solve_loop fsolve l1 l2 l3 l4 L1 L2 L3 theta4_max [] theta4 theta3 = Some (theta4, theta3)"
| "solve_loop fsolve l1 l2 l3 l4 L1 L2 L3 theta4_max (theta2 # rest) theta4 theta3 =
     (let theta4_sol = fsolve (freudenstein L1 L2 L3 theta2) theta4_max;
          theta4 = theta4 @ [theta4_sol]
      in case theta3_try l1 l2 l3 l4 theta2 theta4 theta3 of
           Inl e \<Rightarrow> None
         | Inr theta3 \<Rightarrow> solve_loop fsolve l1 l2 l3 l4 L1 L2 L3 theta4_max rest theta4 theta3)"

text \<open>
  Lines 93 to 143: the parameters, the two bounds of Step 1 inside their \<open>try\<close>, and the
  loop. \<open>Inl\<close> is an exception that leaves the function (the divisions of lines 93 to 95
  are outside every \<open>try\<close>), \<open>Inr None\<close> is \<open>return False\<close>, and
  \<open>Inr (Some (theta4, theta3))\<close> holds the two lists the rest of the function works with.
  \<open>theta4_min\<close> is computed and not used again.
\<close>

definition solve_angles ::
    "root_finder \<Rightarrow> real \<Rightarrow> real \<Rightarrow> real \<Rightarrow> real \<Rightarrow> exn + (real list \<times> real list) option" where
  "solve_angles fsolve l1 l2 l3 l4 =
     bnd (py_truediv l1 l4) (\<lambda>L1.
     bnd (py_truediv l1 l2) (\<lambda>L2.
     bnd (py_truediv ((l1^2 + l2^2 - l3^2 + l4^2) / 2) l2) (\<lambda>q.
     bnd (py_truediv q l4) (\<lambda>L3.
     case bnd (py_truediv ((l2 - l3)^2 - l1^2 - l4^2) (2 * l1 * l4)) (\<lambda>a.
          bnd (math_acos a) (\<lambda>c.
          let theta4_min = math_degrees c in
          bnd (py_truediv ((l2 + l3)^2 - l1^2 - l4^2) (2 * l1 * l4)) (\<lambda>a.
          bnd (math_acos a) (\<lambda>c.
          let theta4_max = math_degrees c in
          Inr (theta4_min, theta4_max))))) of
       Inl e \<Rightarrow> Inr None
     | Inr (theta4_min, theta4_max) \<Rightarrow>
         Inr (solve_loop fsolve l1 l2 l3 l4 L1 L2 L3 theta4_max (py_range 0 361) [] [])))))"

text \<open>
  The rest of the function draws. \<open>drawframe n\<close> sets the two end points of the four
  lines from \<open>n\<close> and \<open>theta4[n]\<close>; a line is its \<open>x\<close> pair and its \<open>y\<close> pair. The
  animation calls it for \<open>frames=360\<close>, that is for \<open>n\<close> in \<open>range(360)\<close>. The axis
  limits, the colours and the encoding of the video are left out.
\<close>

type_synonym line = "(real \<times> real) \<times> (real \<times> real)"

definition drawframe ::
    "real \<Rightarrow> real \<Rightarrow> real \<Rightarrow> real list \<Rightarrow> int \<Rightarrow> exn + (line \<times> line \<times> line \<times> line)" where
  "drawframe l1 l2 l4 theta4 n =
     bnd (py_getitem theta4 n) (\<lambda>t4.
     let x1 = (0, l1); y1 = (0, 0);
         x2 = (0, l2 * cos (math_radians (of_int n)));
         y2 = (0, l2 * sin (math_radians (of_int n)));
         x3 = (l2 * cos (math_radians (of_int n)), l1 + l4 * cos (math_radians t4));
         y3 = (l2 * sin (math_radians (of_int n)), l4 * sin (math_radians t4));
         x4 = (l1, l1 + l4 * cos (math_radians t4));
         y4 = (0, l4 * sin (math_radians t4))
     in Inr ((x1, y1), (x2, y2), (x3, y3), (x4, y4)))"

fun draw_all ::
    "real \<Rightarrow> real \<Rightarrow> real \<Rightarrow> real list \<Rightarrow> int list \<Rightarrow> exn + (line \<times> line \<times> line \<times> line) list" where
  "draw_all l1 l2 l4 theta4 [] = Inr []"
| "draw_all l1 l2 l4 theta4 (n # ns) =
     bnd (drawframe l1 l2 l4 theta4 n) (\<lambda>f.
     bnd (draw_all l1 l2 l4 theta4 ns) (\<lambda>fs. Inr (f # fs)))"

text \<open>What \<open>calculate_linkage\<close> returns: \<open>False\<close>, or the animation.\<close>

datatype linkage = PyFalse | is_HTML: HTML "(line \<times> line \<times> line \<times> line) list"

definition calculate_linkage ::
    "root_finder \<Rightarrow> real \<Rightarrow> real \<Rightarrow> real \<Rightarrow> real \<Rightarrow> exn + linkage" where
  "calculate_linkage fsolve l1 l2 l3 l4 =
     bnd (solve_angles fsolve l1 l2 l3 l4) (\<lambda>r.
     case r of
       None \<Rightarrow> Inr PyFalse
     | Some (theta4, theta3) \<Rightarrow>
         bnd (draw_all l1 l2 l4 theta4 (py_range 0 360)) (\<lambda>frames. Inr (HTML frames)))"

subsection \<open>Named values of a run\<close>

text \<open>
  The initial guess of every root-find, \<open>theta4_max\<close> of line 100, and the value the
  root-finder returns for the driving angle \<open>theta2\<close>, when no division raises.
\<close>

definition theta4_guess :: "real \<Rightarrow> real \<Rightarrow> real \<Rightarrow> real \<Rightarrow> real" where
  "theta4_guess l1 l2 l3 l4 = math_degrees (arccos (((l2 + l3)^2 - l1^2 - l4^2) / (2 * l1 * l4)))"

definition theta4_at :: "root_finder \<Rightarrow> real \<Rightarrow> real \<Rightarrow> real \<Rightarrow> real \<Rightarrow> int \<Rightarrow> real" where
  "theta4_at fsolve l1 l2 l3 l4 theta2 =
     fsolve (freudenstein (l1 / l4) (l1 / l2) ((l1^2 + l2^2 - l3^2 + l4^2) / 2 / l2 / l4) theta2)
       (theta4_guess l1 l2 l3 l4)"

text \<open>The argument of \<open>math.asin\<close> in the loop body, for an output angle \<open>t4\<close>.\<close>

definition asin_arg :: "real \<Rightarrow> real \<Rightarrow> real \<Rightarrow> int \<Rightarrow> real \<Rightarrow> real" where
  "asin_arg l2 l3 l4 theta2 t4 =
     (l4 * sin (math_radians t4) - l2 * sin (math_radians (of_int theta2))) / l3"

text \<open>The value the loop body appends to \<open>theta3\<close>, when \<open>math.asin\<close> does not raise.\<close>

definition theta3_value :: "real \<Rightarrow> real \<Rightarrow> real \<Rightarrow> real \<Rightarrow> int \<Rightarrow> real \<Rightarrow> real" where
  "theta3_value l1 l2 l3 l4 theta2 t4 =
     (if l2 * cos (math_radians (of_int (360 - theta2))) > l1 - l4 * cos (math_radians (180 - t4))
      then 180 - arcsin (asin_arg l2 l3 l4 theta2 t4)
      else arcsin (asin_arg l2 l3 l4 theta2 t4))"

definition theta3_at :: "root_finder \<Rightarrow> real \<Rightarrow> real \<Rightarrow> real \<Rightarrow> real \<Rightarrow> int \<Rightarrow> real" where
  "theta3_at fsolve l1 l2 l3 l4 theta2 =
     theta3_value l1 l2 l3 l4 theta2 (theta4_at fsolve l1 l2 l3 l4 theta2)"

text \<open>The arguments of the two \<open>math.acos\<close> calls of lines 99 and 100.\<close>

definition acos_arg_min :: "real \<Rightarrow> real \<Rightarrow> real \<Rightarrow> real \<Rightarrow> real" where
  "acos_arg_min l1 l2 l3 l4 = ((l2 - l3)^2 - l1^2 - l4^2) / (2 * l1 * l4)"

definition acos_arg_max :: "real \<Rightarrow> real \<Rightarrow> real \<Rightarrow> real \<Rightarrow> real" where
  "acos_arg_max l1 l2 l3 l4 = ((l2 + l3)^2 - l1^2 - l4^2) / (2 * l1 * l4)"

text \<open>The domain of \<open>math.acos\<close> and \<open>math.asin\<close>.\<close>

definition in_domain :: "real \<Rightarrow> bool" where
  "in_domain x \<longleftrightarrow> -1 \<le> x \<and> x \<le> 1"

text \<open>A root-finder that returns \<open>v\<close> for every residual and every initial guess.\<close>

definition const_finder :: "real \<Rightarrow> root_finder" where
  "const_finder v = (\<lambda>f x0. v)"

text \<open>Every driving angle of \<open>range(0, 361)\<close> gives \<open>math.asin\<close> an argument of its domain.\<close>

definition all_in_domain :: "root_finder \<Rightarrow> real \<Rightarrow> real \<Rightarrow> real \<Rightarrow> real \<Rightarrow> bool" where
  "all_in_domain fsolve l1 l2 l3 l4 \<longleftrightarrow>
     list_all (\<lambda>theta2. in_domain (asin_arg l2 l3 l4 theta2 (theta4_at fsolve l1 l2 l3 l4 theta2)))
       (py_range 0 361)"

text \<open>
  The four lines \<open>drawframe\<close> sets for the frame \<open>n\<close> when \<open>theta4[n]\<close> is \<open>t4\<close>, and
  the frames of a list of frame numbers.
\<close>

definition frame_at :: "real \<Rightarrow> real \<Rightarrow> real \<Rightarrow> int \<Rightarrow> real \<Rightarrow> (line \<times> line \<times> line \<times> line)" where
  "frame_at l1 l2 l4 n t4 =
     (let x1 = (0, l1); y1 = (0, 0);
          x2 = (0, l2 * cos (math_radians (of_int n)));
          y2 = (0, l2 * sin (math_radians (of_int n)));
          x3 = (l2 * cos (math_radians (of_int n)), l1 + l4 * cos (math_radians t4));
          y3 = (l2 * sin (math_radians (of_int n)), l4 * sin (math_radians t4));
          x4 = (l1, l1 + l4 * cos (math_radians t4));
          y4 = (0, l4 * sin (math_radians t4))
      in ((x1, y1), (x2, y2), (x3, y3), (x4, y4)))"

definition frames_of ::
    "real \<Rightarrow> real \<Rightarrow> real \<Rightarrow> real list \<Rightarrow> int list \<Rightarrow> (line \<times> line \<times> line \<times> line) list" where
  "frames_of l1 l2 l4 theta4 ns = map (\<lambda>n. frame_at l1 l2 l4 n (theta4 ! nat n)) ns"

section \<open>The double-precision model\<close>

subsection \<open>Binary64 numbers and their operations\<close>

text \<open>
  A float is a finite real number, an infinity or NaN. The sign of zero is not modelled: no
  operation of the source tells \<open>-0.0\<close> from \<open>0.0\<close> (a division by either raises).
\<close>

datatype f64 = Fin real | PInf | NInf | NaN

text \<open>Rounding of a real number to the nearest integer, a tie going to the even one.\<close>

definition round_even :: "real \<Rightarrow> int" where
  "round_even x =
     (let f = \<lfloor>x\<rfloor>; r = x - of_int f
      in if r < 1 / 2 then f else if 1 / 2 < r then f + 1 else if even f then f else f + 1)"

text \<open>
  Rounding of a real number to binary64: 53 significant bits, the exponent of the leading bit
  not below \<open>-1022\<close> (below it the numbers are subnormal, spaced \<open>2 powi - 1074\<close> apart), and
  a result of magnitude \<open>2 ^ 1024\<close> or more is an infinity.
\<close>

definition round64 :: "real \<Rightarrow> f64" where
  "round64 x =
     (if x = 0 then Fin 0
      else let e = max \<lfloor>log 2 \<bar>x\<bar>\<rfloor> (- 1022);
               ulp = 2 powi (e - 52);
               y = of_int (round_even (x / ulp)) * ulp
           in if 2 ^ 1024 \<le> y then PInf else if y \<le> - (2 ^ 1024) then NInf else Fin y)"

fun fneg :: "f64 \<Rightarrow> f64" where
  "fneg (Fin x) = Fin (- x)"
| "fneg PInf = NInf"
| "fneg NInf = PInf"
| "fneg NaN = NaN"

fun fadd :: "f64 \<Rightarrow> f64 \<Rightarrow> f64" where
  "fadd (Fin x) (Fin y) = round64 (x + y)"
| "fadd NaN b = NaN"
| "fadd a NaN = NaN"
| "fadd PInf NInf = NaN"
| "fadd NInf PInf = NaN"
| "fadd PInf b = PInf"
| "fadd a PInf = PInf"
| "fadd NInf b = NInf"
| "fadd a NInf = NInf"

definition fsub :: "f64 \<Rightarrow> f64 \<Rightarrow> f64" where
  "fsub a b = fadd a (fneg b)"

fun fmul :: "f64 \<Rightarrow> f64 \<Rightarrow> f64" where
  "fmul (Fin x) (Fin y) = round64 (x * y)"
| "fmul NaN b = NaN"
| "fmul a NaN = NaN"
| "fmul (Fin x) PInf = (if x = 0 then NaN else if 0 < x then PInf else NInf)"
| "fmul (Fin x) NInf = (if x = 0 then NaN else if 0 < x then NInf else PInf)"
| "fmul PInf (Fin y) = (if y = 0 then NaN else if 0 < y then PInf else NInf)"
| "fmul NInf (Fin y) = (if y = 0 then NaN else if 0 < y then NInf else PInf)"
| "fmul PInf PInf = PInf"
| "fmul PInf NInf = NInf"
| "fmul NInf PInf = NInf"
| "fmul NInf NInf = PInf"

text \<open>
  Float division \<open>a / b\<close>: \<open>ZeroDivisionError\<close> when \<open>b\<close> is zero, whatever \<open>a\<close> is;
  otherwise the rounded quotient, with the usual results for infinities and NaN.
\<close>

fun py_truediv_f64 :: "f64 \<Rightarrow> f64 \<Rightarrow> exn + f64" where
  "py_truediv_f64 a (Fin y) =
     (if y = 0 then Inl ZeroDivisionError
      else case a of
             Fin x \<Rightarrow> Inr (round64 (x / y))
           | PInf \<Rightarrow> Inr (if 0 < y then PInf else NInf)
           | NInf \<Rightarrow> Inr (if 0 < y then NInf else PInf)
           | NaN \<Rightarrow> Inr NaN)"
| "py_truediv_f64 (Fin x) PInf = Inr (Fin 0)"
| "py_truediv_f64 (Fin x) NInf = Inr (Fin 0)"
| "py_truediv_f64 a b = Inr NaN"

text \<open>
  \<open>x ** 2\<close> on a float: the rounded square, \<open>OverflowError\<close> when a finite \<open>x\<close> has a
  square that rounds to infinity; an infinite \<open>x\<close> gives infinity and NaN gives NaN, without
  an exception. The square is taken as correctly rounded.
\<close>

fun py_pow2_f64 :: "f64 \<Rightarrow> exn + f64" where
  "py_pow2_f64 (Fin x) =
     (case round64 (x * x) of
        Fin y \<Rightarrow> Inr (Fin y)
      | r \<Rightarrow> Inl OverflowError)"
| "py_pow2_f64 PInf = Inr PInf"
| "py_pow2_f64 NInf = Inr PInf"
| "py_pow2_f64 NaN = Inr NaN"

text \<open>The comparisons \<open><=\<close>, \<open><\<close>, \<open>>\<close> and \<open>==\<close>: every comparison with NaN is false.\<close>

fun fle :: "f64 \<Rightarrow> f64 \<Rightarrow> bool" where
  "fle (Fin x) (Fin y) \<longleftrightarrow> x \<le> y"
| "fle NaN b \<longleftrightarrow> False"
| "fle a NaN \<longleftrightarrow> False"
| "fle NInf b \<longleftrightarrow> True"
| "fle a PInf \<longleftrightarrow> True"
| "fle a b \<longleftrightarrow> False"

definition flt :: "f64 \<Rightarrow> f64 \<Rightarrow> bool" where
  "flt a b \<longleftrightarrow> fle a b \<and> a \<noteq> b"

definition fgt :: "f64 \<Rightarrow> f64 \<Rightarrow> bool" where
  "fgt a b \<longleftrightarrow> flt b a"

definition feq :: "f64 \<Rightarrow> f64 \<Rightarrow> bool" where
  "feq a b \<longleftrightarrow> a = b \<and> a \<noteq> NaN"

subsection \<open>check_valid in double precision\<close>

fun py_max_f64 :: "f64 list \<Rightarrow> exn + f64" where
  "py_max_f64 [] = Inl ValueError"
| "py_max_f64 (x # xs) = Inr (foldl (\<lambda>m y. if fgt y m then y else m) x xs)"

fun py_min_f64 :: "f64 list \<Rightarrow> exn + f64" where
  "py_min_f64 [] = Inl ValueError"
| "py_min_f64 (x # xs) = Inr (foldl (\<lambda>m y. if flt y m then y else m) x xs)"

fun py_index_f64 :: "f64 list \<Rightarrow> f64 \<Rightarrow> exn + nat" where
  "py_index_f64 [] v = Inl ValueError"
| "py_index_f64 (x # xs) v = (if feq x v then Inr 0 else bnd (py_index_f64 xs v) (\<lambda>i. Inr (Suc i)))"

definition py_del_f64 :: "f64 list \<Rightarrow> nat \<Rightarrow> exn + f64 list" where
  "py_del_f64 xs i = (if i < length xs then Inr (take i xs @ drop (Suc i) xs) else Inl IndexError)"

text \<open>
  \<open>sum(xs)\<close> starts from the integer 0 and adds from the left, each addition rounded. For the
  two-element lists of the source that is the rounded sum of the two floats, also where
  \<open>sum\<close> carries a compensation term (Python 3.12 and later).
\<close>

definition py_sum_f64 :: "f64 list \<Rightarrow> f64" where
  "py_sum_f64 xs = foldl fadd (Fin 0) xs"

text \<open>
  The arguments are the numbers the caller typed; \<open>float(...)\<close> rounds each to binary64
  (never to NaN). The rest is \<open>check_valid\<close> as above, on floats.
\<close>

definition check_valid_f64 :: "real \<Rightarrow> real \<Rightarrow> real \<Rightarrow> real \<Rightarrow> exn + bool option" where
  "check_valid_f64 l1 l2 l3 l4 =
    (let l1 = round64 l1; l2 = round64 l2; l3 = round64 l3; l4 = round64 l4;
         links = [l1, l2, l3, l4] in
     bnd (py_max_f64 links) (\<lambda>link_max.
     bnd (py_min_f64 links) (\<lambda>link_min.
     bnd (py_index_f64 links link_max) (\<lambda>pos_max.
     bnd (py_index_f64 links link_min) (\<lambda>pos_min.
     let min_max = [link_min, link_max] in
     bnd (py_del_f64 links pos_max) (\<lambda>links.
     bnd (if pos_max < pos_min then py_del_f64 links (pos_min - 1)
          else if pos_max \<ge> pos_min then py_del_f64 links pos_min
          else Inr links) (\<lambda>links.
     if fle (py_sum_f64 min_max) (py_sum_f64 links) then Inr (Some True)
     else if fgt (py_sum_f64 min_max) (py_sum_f64 links) then Inr (Some False)
     else Inr None)))))))"

subsection \<open>Lines 93 to 110 of calculate_linkage in double precision\<close>

text \<open>
  \<open>math.pi\<close> is the double \<open>pi64\<close>, and \<open>math.degrees(x)\<close> is the float product of \<open>x\<close>
  and the double \<open>180.0 / math.pi\<close>. \<open>math.acos\<close> raises \<open>ValueError\<close> for a finite
  argument outside \<open>[-1, 1]\<close> and for an infinite one, and passes NaN on; the value the C
  library returns inside the domain is the parameter \<open>acos64\<close>.
\<close>

definition pi64 :: real where
  "pi64 = 884279719003555 / 2 ^ 48"

definition rad_to_deg64 :: f64 where
  "rad_to_deg64 = round64 (180 / pi64)"

definition math_acos_f64 :: "(real \<Rightarrow> f64) \<Rightarrow> f64 \<Rightarrow> exn + f64" where
  "math_acos_f64 acos64 a =
     (case a of
        Fin x \<Rightarrow> if - 1 \<le> x \<and> x \<le> 1 then Inr (acos64 x) else Inl ValueError
      | PInf \<Rightarrow> Inl ValueError
      | NInf \<Rightarrow> Inl ValueError
      | NaN \<Rightarrow> Inr NaN)"

definition math_degrees_f64 :: "f64 \<Rightarrow> f64" where
  "math_degrees_f64 x = fmul x rad_to_deg64"

text \<open>Lines 93 to 95, outside every \<open>try\<close>: what they raise leaves the function.\<close>

definition params_f64 :: "f64 \<Rightarrow> f64 \<Rightarrow> f64 \<Rightarrow> f64 \<Rightarrow> exn + (f64 \<times> f64 \<times> f64)" where
  "params_f64 l1 l2 l3 l4 =
     bnd (py_truediv_f64 l1 l4) (\<lambda>L1.
     bnd (py_truediv_f64 l1 l2) (\<lambda>L2.
     bnd (py_pow2_f64 l1) (\<lambda>a.
     bnd (py_pow2_f64 l2) (\<lambda>b.
     bnd (py_pow2_f64 l3) (\<lambda>c.
     bnd (py_pow2_f64 l4) (\<lambda>d.
     bnd (py_truediv_f64 (fadd (fsub (fadd a b) c) d) (Fin 2)) (\<lambda>q.
     bnd (py_truediv_f64 q l2) (\<lambda>q.
     bnd (py_truediv_f64 q l4) (\<lambda>L3.
     Inr (L1, L2, L3))))))))))"

text \<open>The arguments of the two \<open>math.acos\<close> calls, as the floats the program computes.\<close>

definition acos_arg_min_f64 :: "f64 \<Rightarrow> f64 \<Rightarrow> f64 \<Rightarrow> f64 \<Rightarrow> exn + f64" where
  "acos_arg_min_f64 l1 l2 l3 l4 =
     bnd (py_pow2_f64 (fsub l2 l3)) (\<lambda>a.
     bnd (py_pow2_f64 l1) (\<lambda>b.
     bnd (py_pow2_f64 l4) (\<lambda>c.
     py_truediv_f64 (fsub (fsub a b) c) (fmul (fmul (Fin 2) l1) l4))))"

definition acos_arg_max_f64 :: "f64 \<Rightarrow> f64 \<Rightarrow> f64 \<Rightarrow> f64 \<Rightarrow> exn + f64" where
  "acos_arg_max_f64 l1 l2 l3 l4 =
     bnd (py_pow2_f64 (fadd l2 l3)) (\<lambda>a.
     bnd (py_pow2_f64 l1) (\<lambda>b.
     bnd (py_pow2_f64 l4) (\<lambda>c.
     py_truediv_f64 (fsub (fsub a b) c) (fmul (fmul (Fin 2) l1) l4))))"

text \<open>The body of the \<open>try\<close> of lines 98 to 100.\<close>

definition step1_f64 :: "(real \<Rightarrow> f64) \<Rightarrow> f64 \<Rightarrow> f64 \<Rightarrow> f64 \<Rightarrow> f64 \<Rightarrow> exn + (f64 \<times> f64)" where
  "step1_f64 acos64 l1 l2 l3 l4 =
     bnd (acos_arg_min_f64 l1 l2 l3 l4) (\<lambda>a.
     bnd (math_acos_f64 acos64 a) (\<lambda>c.
     let theta4_min = math_degrees_f64 c in
     bnd (acos_arg_max_f64 l1 l2 l3 l4) (\<lambda>a.
     bnd (math_acos_f64 acos64 a) (\<lambda>c.
     let theta4_max = math_degrees_f64 c in
     Inr (theta4_min, theta4_max)))))"

text \<open>
  Lines 93 to 110. \<open>Inl\<close> is an exception that leaves the function, \<open>ReturnedFalse\<close> is the
  \<open>return False\<close> of the \<open>except\<close> branch, and \<open>Line112 L1 L2 L3 theta4_min theta4_max\<close>
  says that control reaches line 112 with these values.
\<close>

datatype reached = ReturnedFalse | Line112 f64 f64 f64 f64 f64

definition calculate_linkage_f64 ::
    "(real \<Rightarrow> f64) \<Rightarrow> f64 \<Rightarrow> f64 \<Rightarrow> f64 \<Rightarrow> f64 \<Rightarrow> exn + reached" where
  "calculate_linkage_f64 acos64 l1 l2 l3 l4 =
     bnd (params_f64 l1 l2 l3 l4) (\<lambda>(L1, L2, L3).
     case step1_f64 acos64 l1 l2 l3 l4 of
       Inl e \<Rightarrow> Inr ReturnedFalse
     | Inr (theta4_min, theta4_max) \<Rightarrow> Inr (Line112 L1 L2 L3 theta4_min theta4_max))"

text \<open>A float outside the domain of \<open>math.acos\<close>: the call raises.\<close>

definition outside_unit :: "f64 \<Rightarrow> bool" where
  "outside_unit a = (case a of Fin x \<Rightarrow> x < - 1 \<or> 1 < x | PInf \<Rightarrow> True | NInf \<Rightarrow> True | NaN \<Rightarrow> False)"

text \<open>An arc cosine for concrete runs: the exact value, rounded.\<close>

definition acos_nearest :: "real \<Rightarrow> f64" where
  "acos_nearest x = round64 (arccos x)"

section \<open>The validity check in the exact model\<close>

lemma bnd_Inr [simp]: "bnd (Inr v) f = f v"
  by (simp add: bnd_def)

lemma bnd_Inl [simp]: "bnd (Inl e) f = Inl e"
  by (simp add: bnd_def)

text \<open>
  No exception is raised and no branch is missed: the result is the comparison of twice the
  two extremes with the sum of all four lengths.
\<close>

lemma check_valid_char:
  "check_valid l1 l2 l3 l4 =
     Inr (Some (2 * (Min {l1, l2, l3, l4} + Max {l1, l2, l3, l4}) \<le> l1 + l2 + l3 + l4))"
  unfolding check_valid_def Let_def
  by (simp add: py_del_def py_sum_def min_def max_def)

text \<open>
  Taking one occurrence of the minimum and one of the maximum out of the four lengths leaves
  two lengths, whose sum is the total less the two extremes.
\<close>

lemma others_two:
  fixes l1 l2 l3 l4 :: real
  defines "M \<equiv> mset [l1, l2, l3, l4]"
  defines "lo \<equiv> Min {l1, l2, l3, l4}" and "hi \<equiv> Max {l1, l2, l3, l4}"
  shows "size (M - {#lo#} - {#hi#}) = 2"
    and "sum_mset (M - {#lo#} - {#hi#}) = l1 + l2 + l3 + l4 - lo - hi"
proof -
  have set: "set_mset M = {l1, l2, l3, l4}" by (auto simp: M_def)
  have lo_in: "lo \<in># M" unfolding lo_def set [symmetric] by (rule Min_in) (simp_all add: M_def)
  have hi_in: "hi \<in># M" unfolding hi_def set [symmetric] by (rule Max_in) (simp_all add: M_def)
  have hi_in': "hi \<in># M - {#lo#}"
  proof (cases "hi = lo")
    case False
    then show ?thesis using hi_in by (simp add: in_diff_count count_greater_zero_iff)
  next
    case True
    have "\<forall>x \<in> {l1, l2, l3, l4}. lo \<le> x \<and> x \<le> hi"
      unfolding lo_def hi_def by (intro ballI conjI Min_le Max_ge) simp_all
    with True have "l1 = lo" "l2 = lo" "l3 = lo" "l4 = lo" by auto
    then show ?thesis by (simp add: M_def True)
  qed
  define N where "N = M - {#lo#} - {#hi#}"
  have s1: "M = add_mset lo (M - {#lo#})"
    by (rule insert_DiffM [OF lo_in, symmetric])
  have s2: "M - {#lo#} = add_mset hi N"
    unfolding N_def by (rule insert_DiffM [OF hi_in', symmetric])
  have M: "M = add_mset lo (add_mset hi N)"
    using s1 s2 by simp
  have "size M = 4" "sum_mset M = l1 + l2 + l3 + l4" by (simp_all add: M_def)
  then have "size N = 2" "sum_mset N = l1 + l2 + l3 + l4 - lo - hi"
    unfolding M by simp_all
  then show "size (M - {#lo#} - {#hi#}) = 2"
    and "sum_mset (M - {#lo#} - {#hi#}) = l1 + l2 + l3 + l4 - lo - hi"
    unfolding N_def by blast+
qed

text \<open>
  C8. For four strictly positive lengths, \<open>check_valid\<close> returns the same result on every
  rearrangement of them: the result depends on the multiset of the lengths only, ties for
  the extreme value included.
\<close>

theorem check_valid_permutation:
  assumes "0 < l1" "0 < l2" "0 < l3" "0 < l4"
    and "mset [k1, k2, k3, k4] = mset [l1, l2, l3, l4]"
  shows "check_valid k1 k2 k3 k4 = check_valid l1 l2 l3 l4"
proof -
  have "set_mset (mset [k1, k2, k3, k4]) = set_mset (mset [l1, l2, l3, l4])"
    and "sum_mset (mset [k1, k2, k3, k4]) = sum_mset (mset [l1, l2, l3, l4])"
    using assms(5) by simp_all
  then have "{k1, k2, k3, k4} = {l1, l2, l3, l4}" and "k1 + k2 + k3 + k4 = l1 + l2 + l3 + l4"
    by (simp_all add: insert_commute add.commute add.left_commute add.assoc)
  then show ?thesis unfolding check_valid_char by simp
qed

theorem check_valid_permutation_witness:
  "check_valid 3 2 3 1 = check_valid 1 3 2 3 \<and> check_valid 5 5 1 1 = check_valid 1 5 1 5"
  using check_valid_permutation [of 1 3 2 3 3 2 3 1] check_valid_permutation [of 1 5 1 5 5 5 1 1]
  by simp

text \<open>
  C10. For four strictly positive lengths, \<open>check_valid\<close> returns \<open>True\<close> or
  \<open>False\<close>: the final \<open>if/elif\<close> never falls through to \<open>None\<close>, and nothing is
  raised on the way.
\<close>

theorem check_valid_returns_bool:
  assumes "0 < l1" "0 < l2" "0 < l3" "0 < l4"
  shows "check_valid l1 l2 l3 l4 = Inr (Some True) \<or> check_valid l1 l2 l3 l4 = Inr (Some False)"
  unfolding check_valid_char by simp

theorem check_valid_returns_bool_witness:
  "check_valid 2.7 1 2.4 3 = Inr (Some True) \<or> check_valid 2.7 1 2.4 3 = Inr (Some False)"
  using check_valid_returns_bool [of "2.7" 1 "2.4" 3] by simp

section \<open>The validity check in double precision\<close>

subsection \<open>Rounding\<close>

lemma round_even_of_int [simp]: "round_even (of_int n) = n"
  by (simp add: round_even_def)

lemma round64_eval:
  assumes "2 powi e \<le> \<bar>x\<bar>" "\<bar>x\<bar> < 2 powi (e + 1)" "- 1022 \<le> e"
  shows "round64 x =
     (let y = of_int (round_even (x / 2 powi (e - 52))) * 2 powi (e - 52)
      in if 2 ^ 1024 \<le> y then PInf else if y \<le> - (2 ^ 1024) then NInf else Fin y)"
proof -
  have pos: "0 < \<bar>x\<bar>"
    using assms(1) by (smt (verit) zero_less_power_int)
  have p: "(2::real) powr (real_of_int e + 1) = 2 powi (e + 1)"
    using powr_real_of_int' [of 2 "e + 1"] by simp
  have "\<lfloor>log 2 \<bar>x\<bar>\<rfloor> = e"
    using assms(1,2) pos by (simp add: floor_log_eq_powr_iff powr_real_of_int' p)
  then show ?thesis
    using pos assms(3) by (simp add: round64_def Let_def max_def)
qed

text \<open>Every number of 53 significant bits within the exponent range is a double.\<close>

lemma round64_dyadic:
  assumes n: "\<bar>n\<bar> < 2 ^ 53" and j: "- 1074 \<le> j" and fin: "\<bar>of_int n * 2 powi j\<bar> < (2::real) ^ 1024"
  shows "round64 (of_int n * 2 powi j) = Fin (of_int n * 2 powi j)"
proof (cases "n = 0")
  case True
  then show ?thesis by (simp add: round64_def)
next
  case False
  define x :: real where "x = of_int n * 2 powi j"
  have x0: "x \<noteq> 0" using False by (simp add: x_def)
  define E where "E = max \<lfloor>log 2 \<bar>x\<bar>\<rfloor> (- 1022)"
  have absx: "\<bar>x\<bar> = of_int \<bar>n\<bar> * 2 powi j"
    by (simp add: x_def abs_mult)
  have "\<bar>x\<bar> < 2 ^ 53 * 2 powi j"
  proof -
    have "real_of_int \<bar>n\<bar> < 2 ^ 53" using n by (metis of_int_less_numeral_power_cancel_iff)
    then show ?thesis unfolding absx by (simp add: zero_less_power_int)
  qed
  then have "\<bar>x\<bar> < 2 powi (j + 53)"
    by (simp add: power_int_add mult.commute)
  then have "\<bar>x\<bar> < 2 powr (of_int (j + 53))"
    using powr_real_of_int' [of 2 "j + 53"] by simp
  then have "log 2 \<bar>x\<bar> < of_int (j + 53)"
    using x0 by (subst log_less_iff) auto
  then have "\<lfloor>log 2 \<bar>x\<bar>\<rfloor> < j + 53"
    by (simp add: floor_less_iff)
  then have E: "E \<le> j + 52"
    using j by (simp add: E_def)
  define k where "k = nat (j + 52 - E)"
  have k: "int k = j + 52 - E" using E by (simp add: k_def)
  have q: "x / 2 powi (E - 52) = of_int (n * 2 ^ k)"
  proof -
    have "x / 2 powi (E - 52) = x * 2 powi (- (E - 52))"
      by (simp only: power_int_minus divide_inverse)
    also have "\<dots> = of_int n * (2 powi j * 2 powi (- (E - 52)))"
      by (simp only: x_def mult.assoc)
    also have "2 powi j * 2 powi (- (E - 52)) = (2::real) powi (int k)"
      unfolding k by (subst power_int_add [symmetric]) (simp_all add: algebra_simps)
    finally show ?thesis by simp
  qed
  have y: "of_int (round_even (x / 2 powi (E - 52))) * 2 powi (E - 52) = x"
    unfolding q round_even_of_int unfolding q [symmetric] by simp
  have "round64 x = Fin x"
    using x0 fin unfolding round64_def Let_def E_def [symmetric] y
    by (auto simp: x_def abs_less_iff)
  then show ?thesis by (simp add: x_def)
qed


lemma round64_numeral:
  assumes "(numeral k :: int) < 2 ^ 53"
  shows "round64 (numeral k) = Fin (numeral k)"
proof -
  have "real_of_int (numeral k) < 2 ^ 53"
    using assms by (simp only: of_int_less_numeral_power_cancel_iff)
  also have "\<dots> < (2::real) ^ 1024" by simp
  finally have "\<bar>real_of_int (numeral k) * 2 powi 0\<bar> < 2 ^ 1024" by simp
  from round64_dyadic [OF _ _ this] assms show ?thesis by simp
qed

lemma round64_neg_numeral:
  assumes "(numeral k :: int) < 2 ^ 53"
  shows "round64 (- numeral k) = Fin (- numeral k)"
proof -
  have "real_of_int (numeral k) < 2 ^ 53"
    using assms by (simp only: of_int_less_numeral_power_cancel_iff)
  also have "\<dots> < (2::real) ^ 1024" by simp
  finally have "\<bar>real_of_int (- numeral k) * 2 powi 0\<bar> < 2 ^ 1024" by simp
  from round64_dyadic [OF _ _ this] assms show ?thesis by simp
qed

lemma round64_one [simp]: "round64 1 = Fin 1"
  using round64_dyadic [of 1 0] by simp

lemma round64_pow2:
  assumes "n < 1024"
  shows "round64 (2 ^ n) = Fin (2 ^ n)"
proof -
  have "(2::real) ^ n < 2 ^ 1024"
    using assms by (simp only: power_strict_increasing_iff one_less_numeral_iff semiring_norm)
  then show ?thesis
    using round64_dyadic [of 1 "int n"] by simp
qed

lemma fin_cases: "fle (Fin x) (Fin y) = (x \<le> y)" "flt (Fin x) (Fin y) = (x < y)"
  "fgt (Fin x) (Fin y) = (y < x)" "feq (Fin x) (Fin y) = (x = y)"
  by (auto simp: flt_def fgt_def feq_def)

lemma fle_round64_refl: "fle (round64 x) (round64 x)"
  by (cases "round64 x") (simp_all add: round64_def Let_def split: if_splits)

subsection \<open>The selection of the two remaining lengths\<close>

text \<open>
  On finite floats \<open>max\<close>, \<open>min\<close>, \<open>index\<close> and \<open>del\<close> act on the underlying real
  numbers; \<open>index\<close> returns the first position of the value.
\<close>

lemma foldl_max_Fin:
  "foldl (\<lambda>m y. if fgt y m then y else m) (Fin x) (map Fin xs) = Fin (fold max xs x)"
  by (induction xs arbitrary: x) (simp_all add: fin_cases max_def not_less)

lemma foldl_min_Fin:
  "foldl (\<lambda>m y. if flt y m then y else m) (Fin x) (map Fin xs) = Fin (fold min xs x)"
  by (induction xs arbitrary: x) (simp_all add: fin_cases min_def not_less)

lemma py_max_f64_Fin: "py_max_f64 (map Fin (x # xs)) = Inr (Fin (Max (set (x # xs))))"
  using Max.set_eq_fold [of x xs] by (simp add: foldl_max_Fin)

lemma py_min_f64_Fin: "py_min_f64 (map Fin (x # xs)) = Inr (Fin (Min (set (x # xs))))"
  using Min.set_eq_fold [of x xs] by (simp add: foldl_min_Fin)

lemma py_index_f64_Fin:
  "v \<in> set xs \<Longrightarrow>
     \<exists>i < length xs. py_index_f64 (map Fin xs) (Fin v) = Inr i \<and> xs ! i = v \<and> (\<forall>k < i. xs ! k \<noteq> v)"
proof (induction xs)
  case Nil
  then show ?case by simp
next
  case (Cons x xs)
  show ?case
  proof (cases "x = v")
    case True
    then show ?thesis by (simp add: fin_cases)
  next
    case False
    with Cons obtain i where i: "i < length xs" "py_index_f64 (map Fin xs) (Fin v) = Inr i"
      "xs ! i = v" "\<forall>k < i. xs ! k \<noteq> v"
      by auto
    have "\<forall>k < Suc i. (x # xs) ! k \<noteq> v"
      using False i(4) by (auto simp: nth_Cons split: nat.splits)
    then show ?thesis
      using False i by (intro exI [of _ "Suc i"]) (simp add: fin_cases)
  qed
qed

lemma py_del_f64_Fin:
  "py_del_f64 (map Fin xs) i =
     (if i < length xs then Inr (map Fin (take i xs @ drop (Suc i) xs)) else Inl IndexError)"
  by (simp add: py_del_f64_def take_map drop_map)

lemma py_sum_f64_pair:
  "round64 a = Fin a \<Longrightarrow> py_sum_f64 [Fin a, Fin b] = round64 (a + b)"
  by (simp add: py_sum_f64_def)

text \<open>The two lengths left after the two deletions, for each pair of positions.\<close>

lemma rest_after_deletions:
  fixes l1 l2 l3 l4 :: real
  defines "vs \<equiv> [l1, l2, l3, l4]"
  assumes i: "i < 4" "vs ! i = Max (set vs)" "\<forall>k < i. vs ! k \<noteq> Max (set vs)"
      and j: "j < 4" "vs ! j = Min (set vs)" "\<forall>k < j. vs ! k \<noteq> Min (set vs)"
  shows "\<exists>a b. a \<in> set vs \<and> b \<in> set vs
          \<and> a + b = l1 + l2 + l3 + l4 - Min (set vs) - Max (set vs)
          \<and> (let ys = take i vs @ drop (Suc i) vs in
               if i < j then take (j - 1) ys @ drop (Suc (j - 1)) ys
               else take j ys @ drop (Suc j) ys) = [a, b]"
proof -
  have bounds: "\<forall>x \<in> set vs. Min (set vs) \<le> x \<and> x \<le> Max (set vs)"
    by simp
  consider "i = 0" | "i = 1" | "i = 2" | "i = 3" using i(1) by linarith
  then show ?thesis
  proof cases
    case 1
    consider "j = 0" | "j = 1" | "j = 2" | "j = 3" using j(1) by linarith
    then show ?thesis
    proof cases
      case 1
      with \<open>i = 0\<close> i(2) j(2) bounds have "l2 = l1" "l3 = l1" "l4 = l1"
        by (auto simp: vs_def)
      with 1 \<open>i = 0\<close> i(2) j(2) show ?thesis by (simp add: vs_def)
    qed (use \<open>i = 0\<close> i(2) j(2) in \<open>simp_all add: vs_def\<close>)
  next
    case 2
    consider "j = 0" | "j = 1" | "j = 2" | "j = 3" using j(1) by linarith
    then show ?thesis
    proof cases
      case 2
      with \<open>i = 1\<close> i(2) j(2) bounds have "l1 = l2"
        by (auto simp: vs_def)
      then have False using \<open>i = 1\<close> i(2) i(3) [rule_format, of 0] by (auto simp: vs_def)
      then show ?thesis ..
    qed (use \<open>i = 1\<close> i(2) j(2) in \<open>simp_all add: vs_def\<close>)
  next
    case 3
    consider "j = 0" | "j = 1" | "j = 2" | "j = 3" using j(1) by linarith
    then show ?thesis
    proof cases
      case 3
      with \<open>i = 2\<close> i(2) j(2) bounds have "l1 = l3"
        by (auto simp: vs_def)
      then have False using \<open>i = 2\<close> i(2) i(3) [rule_format, of 0] by (auto simp: vs_def)
      then show ?thesis ..
    qed (use \<open>i = 2\<close> i(2) j(2) in \<open>simp_all add: vs_def\<close>)
  next
    case 4
    consider "j = 0" | "j = 1" | "j = 2" | "j = 3" using j(1) by linarith
    then show ?thesis
    proof cases
      case 4
      with \<open>i = 3\<close> i(2) j(2) bounds have "l1 = l4"
        by (auto simp: vs_def)
      then have False using \<open>i = 3\<close> i(2) i(3) [rule_format, of 0] by (auto simp: vs_def)
      then show ?thesis ..
    qed (use \<open>i = 3\<close> i(2) j(2) in \<open>simp_all add: vs_def\<close>)
  qed
qed

lemma round64_not_NaN [simp]: "round64 x \<noteq> NaN"
  by (simp add: round64_def Let_def)

lemma fgt_if_not_fle: "a \<noteq> NaN \<Longrightarrow> b \<noteq> NaN \<Longrightarrow> \<not> fle a b \<Longrightarrow> fgt a b"
  by (cases a; cases b) (auto simp: fgt_def flt_def)

lemma check_valid_f64_char:
  fixes l1 l2 l3 l4 :: real
  defines "lo \<equiv> Min {l1, l2, l3, l4}" and "hi \<equiv> Max {l1, l2, l3, l4}"
  assumes rep: "round64 l1 = Fin l1" "round64 l2 = Fin l2" "round64 l3 = Fin l3" "round64 l4 = Fin l4"
  shows "check_valid_f64 l1 l2 l3 l4 =
           Inr (Some (fle (round64 (lo + hi)) (round64 (l1 + l2 + l3 + l4 - lo - hi))))"
proof -
  define vs where "vs = [l1, l2, l3, l4]"
  have set: "set vs = {l1, l2, l3, l4}" by (simp add: vs_def)
  have repv: "round64 v = Fin v" if "v \<in> set vs" for v
    using that rep by (auto simp: vs_def)
  have hi_in: "hi \<in> set vs" unfolding hi_def set [symmetric] by (rule Max_in) (simp_all add: vs_def)
  have lo_in: "lo \<in> set vs" unfolding lo_def set [symmetric] by (rule Min_in) (simp_all add: vs_def)
  have mx: "py_max_f64 (map Fin vs) = Inr (Fin hi)"
    unfolding hi_def set [symmetric] unfolding vs_def by (rule py_max_f64_Fin)
  have mn: "py_min_f64 (map Fin vs) = Inr (Fin lo)"
    unfolding lo_def set [symmetric] unfolding vs_def by (rule py_min_f64_Fin)
  from py_index_f64_Fin [OF hi_in] obtain i where i: "i < length vs"
    "py_index_f64 (map Fin vs) (Fin hi) = Inr i" "vs ! i = hi" "\<forall>k < i. vs ! k \<noteq> hi"
    by blast
  from py_index_f64_Fin [OF lo_in] obtain j where j: "j < length vs"
    "py_index_f64 (map Fin vs) (Fin lo) = Inr j" "vs ! j = lo" "\<forall>k < j. vs ! k \<noteq> lo"
    by blast
  have i4: "i < 4" and j4: "j < 4" using i(1) j(1) by (simp_all add: vs_def)
  from rest_after_deletions [of i l1 l2 l3 l4 j] i(3,4) j(3,4) i4 j4
  obtain a b where ab: "a \<in> set vs" "b \<in> set vs" "a + b = l1 + l2 + l3 + l4 - lo - hi"
    and rest: "(let ys = take i vs @ drop (Suc i) vs in
               if i < j then take (j - 1) ys @ drop (Suc (j - 1)) ys
               else take j ys @ drop (Suc j) ys) = [a, b]"
    unfolding vs_def [symmetric] set lo_def [symmetric] hi_def [symmetric] by blast
  define ys where "ys = take i vs @ drop (Suc i) vs"
  have lys: "length ys = 3" using i4 by (simp add: ys_def vs_def)
  have del1: "py_del_f64 (map Fin vs) i = Inr (map Fin ys)"
    using i(1) by (simp add: py_del_f64_Fin ys_def)
  have del2: "(if i < j then py_del_f64 (map Fin ys) (j - 1)
               else if i \<ge> j then py_del_f64 (map Fin ys) j
               else Inr (map Fin ys)) = Inr (map Fin [a, b])"
  proof (cases "i < j")
    case True
    then have "j - 1 < length ys" using j4 lys by simp
    then show ?thesis
      using True rest unfolding Let_def ys_def [symmetric] by (simp add: py_del_f64_Fin)
  next
    case False
    have "j < length ys"
    proof (rule ccontr)
      assume "\<not> j < length ys"
      then have "j = 3" "i = 3" using j4 i4 False lys by simp_all
      then have "[a, b] = take 3 (take 3 vs)"
        using rest unfolding Let_def by (simp add: vs_def)
      then show False by (simp add: vs_def)
    qed
    then show ?thesis
      using False rest unfolding Let_def ys_def [symmetric] by (simp add: py_del_f64_Fin)
  qed
  have sums: "py_sum_f64 [Fin lo, Fin hi] = round64 (lo + hi)"
    "py_sum_f64 (map Fin [a, b]) = round64 (a + b)"
    using repv [OF lo_in] repv [OF ab(1)] by (simp_all add: py_sum_f64_pair)
  have "check_valid_f64 l1 l2 l3 l4 =
      (if fle (round64 (lo + hi)) (round64 (a + b)) then Inr (Some True)
       else if fgt (round64 (lo + hi)) (round64 (a + b)) then Inr (Some False)
       else Inr None)"
    unfolding check_valid_f64_def Let_def rep
    unfolding list.map(2) [of Fin, symmetric] list.map(1) [of Fin, symmetric] vs_def [symmetric]
    by (simp only: mx mn i(2) j(2) del1 del2 bnd_Inr sums(2))
      (simp add: py_sum_f64_pair repv [OF lo_in])
  moreover have "fgt (round64 (lo + hi)) (round64 (a + b))"
    if "\<not> fle (round64 (lo + hi)) (round64 (a + b))"
    using that by (intro fgt_if_not_fle) simp_all
  ultimately show ?thesis
    unfolding ab(3) by auto
qed

text \<open>
  On double-precision lengths the result depends on the multiset of the lengths only, and it
  is \<open>True\<close> or \<open>False\<close>, as in the exact model.
\<close>

lemma check_valid_f64_permutation:
  assumes "round64 l1 = Fin l1" "round64 l2 = Fin l2" "round64 l3 = Fin l3" "round64 l4 = Fin l4"
    and "mset [k1, k2, k3, k4] = mset [l1, l2, l3, l4]"
  shows "check_valid_f64 k1 k2 k3 k4 = check_valid_f64 l1 l2 l3 l4"
proof -
  have "set_mset (mset [k1, k2, k3, k4]) = set_mset (mset [l1, l2, l3, l4])"
    and "sum_mset (mset [k1, k2, k3, k4]) = sum_mset (mset [l1, l2, l3, l4])"
    using assms(5) by simp_all
  then have s: "{k1, k2, k3, k4} = {l1, l2, l3, l4}" and t: "k1 + k2 + k3 + k4 = l1 + l2 + l3 + l4"
    by (simp_all add: insert_commute add.commute add.left_commute add.assoc)
  have "\<forall>k \<in> {k1, k2, k3, k4}. round64 k = Fin k"
    unfolding s using assms(1-4) by simp
  then have "round64 k1 = Fin k1" "round64 k2 = Fin k2" "round64 k3 = Fin k3" "round64 k4 = Fin k4"
    by simp_all
  then show ?thesis
    unfolding check_valid_f64_char [OF assms(1-4)] using s t by (subst check_valid_f64_char) simp_all
qed

lemma check_valid_f64_returns_bool:
  assumes "round64 l1 = Fin l1" "round64 l2 = Fin l2" "round64 l3 = Fin l3" "round64 l4 = Fin l4"
  shows "check_valid_f64 l1 l2 l3 l4 = Inr (Some True) \<or> check_valid_f64 l1 l2 l3 l4 = Inr (Some False)"
  unfolding check_valid_f64_char [OF assms] by simp

subsection \<open>The claim on the comparison of the sums\<close>

lemma check_valid_f64_conv:
  assumes "round64 l1 = Fin d1" "round64 l2 = Fin d2" "round64 l3 = Fin d3" "round64 l4 = Fin d4"
    and "round64 d1 = Fin d1" "round64 d2 = Fin d2" "round64 d3 = Fin d3" "round64 d4 = Fin d4"
  shows "check_valid_f64 l1 l2 l3 l4 = check_valid_f64 d1 d2 d3 d4"
  unfolding check_valid_f64_def assms ..

lemma doubles_of_decimals:
  "round64 (1 / 10) = Fin (3602879701896397 / 2 ^ 55)"
  "round64 (15 / 100) = Fin (5404319552844595 / 2 ^ 55)"
  "round64 (2 / 10) = Fin (3602879701896397 / 2 ^ 54)"
  using round64_eval [of "- 4" "1 / 10"] round64_eval [of "- 3" "15 / 100"]
    round64_eval [of "- 3" "2 / 10"]
  by (simp_all add: round_even_def Let_def power_int_minus)

lemma doubles_are_fixed:
  "round64 (3602879701896397 / 2 ^ 55) = Fin (3602879701896397 / 2 ^ 55)"
  "round64 (5404319552844595 / 2 ^ 55) = Fin (5404319552844595 / 2 ^ 55)"
  "round64 (3602879701896397 / 2 ^ 54) = Fin (3602879701896397 / 2 ^ 54)"
  using round64_dyadic [of 3602879701896397 "- 55"] round64_dyadic [of 5404319552844595 "- 55"]
    round64_dyadic [of 3602879701896397 "- 54"]
  by (simp_all add: power_int_minus field_simps)

lemma decimal_sums:
  "round64 (3602879701896397 / 2 ^ 55 + 3602879701896397 / 2 ^ 54) = Fin (5404319552844596 / 2 ^ 54)"
  "round64 (5404319552844595 / 2 ^ 55 + 5404319552844595 / 2 ^ 55) = Fin (5404319552844595 / 2 ^ 54)"
  using round64_eval [of "- 2" "3602879701896397 / 2 ^ 55 + 3602879701896397 / 2 ^ 54"]
    round64_eval [of "- 2" "5404319552844595 / 2 ^ 55 + 5404319552844595 / 2 ^ 55"]
  by (simp_all add: round_even_def Let_def power_int_minus)

lemma big_doubles:
  "round64 (2 ^ 53) = Fin (2 ^ 53)" "round64 (2 ^ 52) = Fin (2 ^ 52)"
  "round64 (1 + 2 ^ 53) = Fin (2 ^ 53)" "round64 (2 ^ 52 + 2 ^ 52) = Fin (2 ^ 53)"
  using round64_pow2 [of 53] round64_pow2 [of 52] round64_eval [of 53 "1 + 2 ^ 53"]
  by (simp_all add: round_even_def Let_def)

text \<open>
  C1. The claim is that \<open>check_valid\<close> returns \<open>True\<close> exactly when the minimum plus the
  maximum is at most the sum of the two remaining lengths. The program compares the two
  rounded sums. For the lengths \<open>2 ^ 53\<close>, 1, \<open>2 ^ 52\<close>, \<open>2 ^ 52\<close> it returns \<open>True\<close> although
  \<open>1 + 2 ^ 53\<close> exceeds \<open>2 ^ 52 + 2 ^ 52\<close>: the float sum \<open>1 + 2 ^ 53\<close> is \<open>2 ^ 53\<close>. For
  the lengths 0.1, 0.15, 0.15, 0.2 it returns \<open>False\<close> although \<open>0.1 + 0.2 = 0.15 + 0.15\<close>:
  the floats nearest to the four numbers have the sums 0.30000000000000004 and 0.3.
\<close>

theorem check_valid_exact_comparison_counterexample:
  "check_valid_f64 (2 ^ 53) 1 (2 ^ 52) (2 ^ 52) = Inr (Some True)
   \<and> \<not> (1 + 2 ^ 53 \<le> 2 ^ 52 + (2::real) ^ 52)
   \<and> check_valid_f64 (1 / 10) (15 / 100) (15 / 100) (2 / 10) = Inr (Some False)
   \<and> 1 / 10 + 2 / 10 \<le> 15 / 100 + (15 / 100 :: real)"
proof -
  have "check_valid_f64 (2 ^ 53) 1 (2 ^ 52) (2 ^ 52) = Inr (Some True)"
    by (subst check_valid_f64_char) (use big_doubles in simp_all)
  moreover have "check_valid_f64 (1 / 10) (15 / 100) (15 / 100) (2 / 10) = Inr (Some False)"
    by (subst check_valid_f64_conv [OF doubles_of_decimals(1,2,2,3) doubles_are_fixed(1,2,2,3)],
        subst check_valid_f64_char [OF doubles_are_fixed(1,2,2,3)])
       (use decimal_sums in simp)
  ultimately show ?thesis by simp
qed

text \<open>
  C1, as amended. For four strictly positive lengths that are double-precision numbers (as the
  lengths are after \<open>float(...)\<close>), \<open>check_valid\<close> returns \<open>True\<close> exactly when the
  double-precision sum of the minimum and the maximum is less than or equal to the
  double-precision sum of the two remaining lengths, each sum being the exact sum rounded
  once; when the four lengths are equal it returns \<open>True\<close>.
\<close>

theorem check_valid_f64_rounded_sums:
  assumes "round64 l1 = Fin l1" "round64 l2 = Fin l2" "round64 l3 = Fin l3" "round64 l4 = Fin l4"
    and "0 < l1" "0 < l2" "0 < l3" "0 < l4"
  shows "let lo = Min {l1, l2, l3, l4}; hi = Max {l1, l2, l3, l4};
             others = mset [l1, l2, l3, l4] - {#lo#} - {#hi#}
         in size others = 2
          \<and> check_valid_f64 l1 l2 l3 l4 =
              Inr (Some (fle (round64 (lo + hi)) (round64 (sum_mset others))))
          \<and> (l1 = l2 \<and> l2 = l3 \<and> l3 = l4 \<longrightarrow> check_valid_f64 l1 l2 l3 l4 = Inr (Some True))"
proof -
  show ?thesis
    unfolding Let_def others_two check_valid_f64_char [OF assms(1-4)]
    by (auto simp: fle_round64_refl)
qed

theorem check_valid_f64_rounded_sums_witness:
  "check_valid_f64 3 1 2 3 = Inr (Some True) \<and> check_valid_f64 10 1 1 1 = Inr (Some False)
   \<and> check_valid_f64 2 2 2 2 = Inr (Some True)
   \<and> check_valid_f64 (2 ^ 53) 1 (2 ^ 52) (2 ^ 52) = Inr (Some (fle (round64 (1 + 2 ^ 53)) (round64 (2 ^ 52 + 2 ^ 52))))"
  using check_valid_f64_rounded_sums [of 3 1 2 3] check_valid_f64_rounded_sums [of 10 1 1 1]
    check_valid_f64_rounded_sums [of 2 2 2 2]
    check_valid_f64_rounded_sums [of "2 ^ 53" 1 "2 ^ 52" "2 ^ 52"] big_doubles
  by (simp add: Let_def round64_numeral)

section \<open>The angle solver\<close>

subsection \<open>The loop body and the loop\<close>

text \<open>
  When the loop body runs for \<open>theta2\<close>, the list \<open>theta4\<close> has \<open>theta2 + 1\<close> entries, so
  \<open>theta4[theta2]\<close> is the value just appended and only \<open>math.asin\<close> (or a division by
  \<open>l3 = 0\<close>) can raise. The loop is therefore all or nothing: it ends with the two lists of
  the per-angle values, or returns \<open>False\<close> at the first argument outside the domain.
\<close>

lemma theta3_try_last:
  assumes "int (length theta4) = theta2" "l3 \<noteq> 0"
  shows "theta3_try l1 l2 l3 l4 theta2 (theta4 @ [t]) theta3 =
     (if in_domain (asin_arg l2 l3 l4 theta2 t)
      then Inr (theta3 @ [theta3_value l1 l2 l3 l4 theta2 t]) else Inl ValueError)"
  using assms
  by (auto simp: theta3_try_def py_getitem_def Let_def py_truediv_def math_asin_def
        asin_arg_def theta3_value_def in_domain_def)

lemma solve_loop_char:
  assumes "l3 \<noteq> 0"
  shows "length theta4 = k \<Longrightarrow>
     solve_loop fsolve l1 l2 l3 l4 L1 L2 L3 g (map int [k..<k+n]) theta4 theta3 =
     (if \<forall>i \<in> set [k..<k+n]. in_domain (asin_arg l2 l3 l4 (int i) (fsolve (freudenstein L1 L2 L3 (int i)) g))
      then Some (theta4 @ map (\<lambda>i. fsolve (freudenstein L1 L2 L3 (int i)) g) [k..<k+n],
                 theta3 @ map (\<lambda>i. theta3_value l1 l2 l3 l4 (int i) (fsolve (freudenstein L1 L2 L3 (int i)) g)) [k..<k+n])
      else None)"
proof (induction n arbitrary: k theta4 theta3)
  case 0
  then show ?case by simp
next
  case (Suc n)
  let ?t = "fsolve (freudenstein L1 L2 L3 (int k)) g"
  have len: "length (theta4 @ [?t]) = Suc k" using Suc.prems by simp
  have hd: "int (length theta4) = int k" using Suc.prems by simp
  note IH = Suc.IH [OF len]
  show ?case
  proof (cases "in_domain (asin_arg l2 l3 l4 (int k) ?t)")
    case True
    then show ?thesis
      using IH assms
      by (simp add: theta3_try_last [OF hd] Let_def upt_conv_Cons del: upt_Suc)
  next
    case False
    then show ?thesis
      using assms
      by (auto simp add: theta3_try_last [OF hd] Let_def upt_conv_Cons simp del: upt_Suc)
  qed
qed

lemma solve_loop_Cons_l3_zero:
  "solve_loop fsolve l1 l2 0 l4 L1 L2 L3 g (theta2 # rest) theta4 theta3 = None"
  by (simp add: Let_def theta3_try_def py_truediv_def bnd_def split: sum.splits)

lemma py_range_361: "py_range 0 361 = 0 # map int [Suc 0..<361]"
proof -
  have "[0..<361] = 0 # [Suc 0..<361]"
    by (rule upt_conv_Cons) simp
  then show ?thesis
    unfolding py_range_def by (simp only: list.map of_nat_0)
qed

lemma solve_loop_l3_zero:
  "solve_loop fsolve l1 l2 0 l4 L1 L2 L3 g (py_range 0 361) [] [] = None"
  unfolding py_range_361 by (rule solve_loop_Cons_l3_zero)

lemma solve_loop_full:
  assumes "l3 \<noteq> 0"
  shows "solve_loop fsolve l1 l2 l3 l4 L1 L2 L3 g (py_range 0 361) [] [] =
     (if list_all (\<lambda>theta2. in_domain (asin_arg l2 l3 l4 theta2 (fsolve (freudenstein L1 L2 L3 theta2) g)))
           (py_range 0 361)
      then Some (map (\<lambda>theta2. fsolve (freudenstein L1 L2 L3 theta2) g) (py_range 0 361),
                 map (\<lambda>theta2. theta3_value l1 l2 l3 l4 theta2 (fsolve (freudenstein L1 L2 L3 theta2) g))
                   (py_range 0 361))
      else None)"
  using solve_loop_char [OF assms, of "[]" 0 fsolve l1 l2 l4 L1 L2 L3 g 361 "[]"]
  by (simp add: py_range_def list_all_iff comp_def del: upt_Suc upt_rec_numeral)

lemma step1_char:
  "bnd (py_truediv ((l2 - l3)^2 - l1^2 - l4^2) (2 * l1 * l4)) (\<lambda>a.
     bnd (math_acos a) (\<lambda>c.
     let theta4_min = math_degrees c in
     bnd (py_truediv ((l2 + l3)^2 - l1^2 - l4^2) (2 * l1 * l4)) (\<lambda>a.
     bnd (math_acos a) (\<lambda>c.
     let theta4_max = math_degrees c in
     Inr (theta4_min, theta4_max))))) =
   (if l1 = 0 \<or> l4 = 0 then Inl ZeroDivisionError
    else if in_domain (acos_arg_min l1 l2 l3 l4) \<and> in_domain (acos_arg_max l1 l2 l3 l4)
    then Inr (math_degrees (arccos (acos_arg_min l1 l2 l3 l4)), theta4_guess l1 l2 l3 l4)
    else Inl ValueError)"
  by (simp add: py_truediv_def math_acos_def Let_def in_domain_def acos_arg_min_def
      acos_arg_max_def theta4_guess_def)

text \<open>
  The outcome of lines 93 to 143 for all real lengths: an exception of the unguarded divisions,
  \<open>False\<close>, or the two complete lists.
\<close>

lemma solve_angles_char:
  "solve_angles fsolve l1 l2 l3 l4 =
    (if l4 = 0 \<or> l2 = 0 then Inl ZeroDivisionError
     else if l1 \<noteq> 0 \<and> l3 \<noteq> 0 \<and> in_domain (acos_arg_min l1 l2 l3 l4) \<and> in_domain (acos_arg_max l1 l2 l3 l4)
            \<and> all_in_domain fsolve l1 l2 l3 l4
     then Inr (Some (map (theta4_at fsolve l1 l2 l3 l4) (py_range 0 361),
                     map (theta3_at fsolve l1 l2 l3 l4) (py_range 0 361)))
     else Inr None)"
proof -
  have unf: "solve_angles fsolve l1 l2 l3 l4 =
     bnd (py_truediv l1 l4) (\<lambda>L1.
     bnd (py_truediv l1 l2) (\<lambda>L2.
     bnd (py_truediv ((l1^2 + l2^2 - l3^2 + l4^2) / 2) l2) (\<lambda>q.
     bnd (py_truediv q l4) (\<lambda>L3.
     case (if l1 = 0 \<or> l4 = 0 then Inl ZeroDivisionError
           else if in_domain (acos_arg_min l1 l2 l3 l4) \<and> in_domain (acos_arg_max l1 l2 l3 l4)
           then Inr (math_degrees (arccos (acos_arg_min l1 l2 l3 l4)), theta4_guess l1 l2 l3 l4)
           else Inl ValueError) of
       Inl e \<Rightarrow> Inr None
     | Inr (theta4_min, theta4_max) \<Rightarrow>
         Inr (solve_loop fsolve l1 l2 l3 l4 L1 L2 L3 theta4_max (py_range 0 361) [] [])))))"
    unfolding solve_angles_def step1_char ..
  show ?thesis
  proof (cases "l3 = 0")
    case True
    then show ?thesis
      unfolding unf by (simp add: py_truediv_def solve_loop_l3_zero)
  next
    case False
    have maps: "map (theta4_at fsolve l1 l2 l3 l4) (py_range 0 361) =
        map (\<lambda>theta2. fsolve (freudenstein (l1 / l4) (l1 / l2)
              ((l1^2 + l2^2 - l3^2 + l4^2) / 2 / l2 / l4) theta2) (theta4_guess l1 l2 l3 l4)) (py_range 0 361)"
      "map (theta3_at fsolve l1 l2 l3 l4) (py_range 0 361) =
        map (\<lambda>theta2. theta3_value l1 l2 l3 l4 theta2 (fsolve (freudenstein (l1 / l4) (l1 / l2)
              ((l1^2 + l2^2 - l3^2 + l4^2) / 2 / l2 / l4) theta2) (theta4_guess l1 l2 l3 l4))) (py_range 0 361)"
      unfolding theta3_at_def theta4_at_def by (rule refl)+
    have alld: "all_in_domain fsolve l1 l2 l3 l4 =
       list_all (\<lambda>theta2. in_domain (asin_arg l2 l3 l4 theta2 (fsolve (freudenstein (l1 / l4) (l1 / l2)
              ((l1^2 + l2^2 - l3^2 + l4^2) / 2 / l2 / l4) theta2) (theta4_guess l1 l2 l3 l4))))
           (py_range 0 361)"
      unfolding all_in_domain_def theta4_at_def by (rule refl)
    show ?thesis
      unfolding unf maps alld py_truediv_def
      using False by (simp only: bnd_Inr bnd_Inl solve_loop_full [OF False] split: if_splits) auto
  qed
qed


lemma solve_angles_Some:
  assumes "solve_angles fsolve l1 l2 l3 l4 = Inr (Some (theta4, theta3))"
  shows "theta4 = map (theta4_at fsolve l1 l2 l3 l4) (py_range 0 361)"
    and "theta3 = map (theta3_at fsolve l1 l2 l3 l4) (py_range 0 361)"
    and "l1 \<noteq> 0" "l2 \<noteq> 0" "l3 \<noteq> 0" "l4 \<noteq> 0"
  using assms unfolding solve_angles_char by (simp_all split: if_splits)

lemma length_py_range [simp]: "length (py_range a b) = b - a"
  by (simp add: py_range_def)

lemma nth_map_py_range: "i < b \<Longrightarrow> map f (py_range 0 b) ! i = f (int i)"
  by (simp add: py_range_def del: upt_rec_numeral upt_Suc)

lemma nth_py_range: "i < b \<Longrightarrow> py_range 0 b ! i = int i"
  using nth_map_py_range [of i b "\<lambda>x. x"] by simp

lemma set_py_range: "set (py_range a b) = int ` {a..<b}"
  by (simp add: py_range_def del: upt_rec_numeral upt_Suc)

lemma draw_all_ok:
  assumes "\<forall>n \<in> set ns. 0 \<le> n \<and> n < int (length theta4)"
  shows "\<exists>frames. draw_all l1 l2 l4 theta4 ns = Inr frames \<and> length frames = length ns"
  using assms
proof (induction ns)
  case Nil
  then show ?case by simp
next
  case (Cons n ns)
  then obtain frames where "draw_all l1 l2 l4 theta4 ns = Inr frames" "length frames = length ns"
    by auto
  moreover have "\<exists>f. drawframe l1 l2 l4 theta4 n = Inr f"
    using Cons.prems by (simp add: drawframe_def py_getitem_def Let_def)
  ultimately show ?case by auto
qed

lemma calculate_linkage_False:
  "solve_angles fsolve l1 l2 l3 l4 = Inr None \<Longrightarrow> calculate_linkage fsolve l1 l2 l3 l4 = Inr PyFalse"
  by (simp add: calculate_linkage_def)

lemma calculate_linkage_HTML:
  assumes "solve_angles fsolve l1 l2 l3 l4 = Inr (Some (theta4, theta3))"
  shows "\<exists>frames. calculate_linkage fsolve l1 l2 l3 l4 = Inr (HTML frames) \<and> length frames = 360"
proof -
  have "length theta4 = 361"
    using solve_angles_Some(1) [OF assms] by simp
  then have "\<forall>n \<in> set (py_range 0 360). 0 \<le> n \<and> n < int (length theta4)"
    by (auto simp: set_py_range)
  from draw_all_ok [OF this, of l1 l2 l4] show ?thesis
    using assms by (auto simp: calculate_linkage_def)
qed

subsection \<open>Angles and two concrete runs\<close>

text \<open>
  The rhombus 1, 1, 1, 1 with the root \<open>theta4 = 180\<close> (the output link folded onto the
  ground link), and the lengths 3, 1, 3, 1 with a root-finder that returns \<open>- 90\<close>.
\<close>

lemma radians_values:
  "math_radians 0 = 0" "math_radians 90 = pi / 2" "math_radians 180 = pi"
  "math_radians 270 = 3 / 2 * pi" "math_radians 360 = 2 * pi" "math_radians (- 90) = - (pi / 2)"
  by (simp_all add: math_radians_def)

lemma radians_diff: "math_radians (x - y) = math_radians x - math_radians y"
  by (simp add: math_radians_def left_diff_distrib)

lemma theta4_at_const [simp]: "theta4_at (const_finder v) l1 l2 l3 l4 theta2 = v"
  by (simp add: theta4_at_def const_finder_def)

lemma in_domain_neg_sin: "in_domain (- sin x)"
  by (simp add: in_domain_def)

lemma rhombus_in_domain: "all_in_domain (const_finder 180) 1 1 1 1"
  by (simp add: all_in_domain_def list_all_iff asin_arg_def radians_values in_domain_neg_sin)

lemma rhombus_run:
  "solve_angles (const_finder 180) 1 1 1 1 =
     Inr (Some (map (theta4_at (const_finder 180) 1 1 1 1) (py_range 0 361),
                map (theta3_at (const_finder 180) 1 1 1 1) (py_range 0 361)))"
  unfolding solve_angles_char
  by (simp add: rhombus_in_domain in_domain_def acos_arg_min_def acos_arg_max_def)

lemma rhombus_root: "freudenstein (1 / 1) (1 / 1) ((1^2 + 1^2 - 1^2 + 1^2) / 2 / 1 / 1) theta2 180 = 0"
  by (simp add: freudenstein_def radians_diff radians_values)

lemma cos_270: "cos (3 * pi / 2) = 0"
  using cos_3over2_pi by simp

lemma rhombus_sample_90:
  "theta3_at (const_finder 180) 1 1 1 1 90 = - (pi / 2)"
  by (simp add: theta3_at_def theta3_value_def asin_arg_def radians_values cos_270)

lemma in_domain_third: "- 1 \<le> s \<Longrightarrow> s \<le> 1 \<Longrightarrow> in_domain ((- 1 - s) / 3)"
  by (simp add: in_domain_def)

lemma long_coupler_in_domain: "all_in_domain (const_finder (- 90)) 3 1 3 1"
  by (simp add: all_in_domain_def list_all_iff asin_arg_def radians_values in_domain_third)

lemma long_coupler_run:
  "solve_angles (const_finder (- 90)) 3 1 3 1 =
     Inr (Some (map (theta4_at (const_finder (- 90)) 3 1 3 1) (py_range 0 361),
                map (theta3_at (const_finder (- 90)) 3 1 3 1) (py_range 0 361)))"
  unfolding solve_angles_char
  by (simp add: long_coupler_in_domain in_domain_def acos_arg_min_def acos_arg_max_def)

subsection \<open>The claims on the angle solver\<close>






text \<open>
  C4. The claim is that \<open>theta3\<close> is in degrees: \<open>180 - arcsin(...)\<close> or
  \<open>arcsin(...)\<close>, the arc sine expressed in degrees. The source appends
  \<open>180 - math.asin(...)\<close> or \<open>math.asin(...)\<close> with the arc sine in radians. For the
  rhombus \<open>l1 = l2 = l3 = l4 = 1\<close> the angle \<open>theta4 = 180\<close> is a root of the residual for
  every driving angle; with that root the run reaches the end of the loop, and the sample for
  \<open>theta2 = 90\<close> has \<open>theta3 = - pi / 2\<close>, where the arc sine in degrees is \<open>- 90\<close>.
\<close>

theorem coupler_angle_is_in_radians:
  "solve_angles (const_finder 180) 1 1 1 1 =
     Inr (Some (map (theta4_at (const_finder 180) 1 1 1 1) (py_range 0 361),
                map (theta3_at (const_finder 180) 1 1 1 1) (py_range 0 361)))
   \<and> map (theta4_at (const_finder 180) 1 1 1 1) (py_range 0 361) ! 90 = 180
   \<and> freudenstein (1 / 1) (1 / 1) ((1^2 + 1^2 - 1^2 + 1^2) / 2 / 1 / 1) 90 180 = 0
   \<and> map (theta3_at (const_finder 180) 1 1 1 1) (py_range 0 361) ! 90 = - (pi / 2)
   \<and> math_degrees (arcsin (asin_arg 1 1 1 90 180)) = - 90
   \<and> - (pi / 2) \<noteq> - 90"
proof -
  have "py_range 0 361 ! 90 = 90"
    using nth_map_py_range [of 90 361 "\<lambda>x. x"] by simp
  moreover have "math_degrees (arcsin (asin_arg 1 1 1 90 180)) = - 90"
    by (simp add: asin_arg_def radians_values math_degrees_def)
  moreover have "- (pi / 2) \<noteq> - 90"
    using pi_less_4 by simp
  ultimately show ?thesis
    using rhombus_run rhombus_root [of 90] rhombus_sample_90 by simp
qed


subsection \<open>Step 1 in double precision\<close>

lemma math_acos_f64_outside: "outside_unit a \<Longrightarrow> math_acos_f64 acos64 a = Inl ValueError"
  by (cases a) (auto simp: outside_unit_def math_acos_f64_def)


lemma witness_doubles:
  "round64 (3 / 2) = Fin (3 / 2)" "round64 (5 / 2) = Fin (5 / 2)"
  "round64 (- (5 / 3)) = Fin (- (7505999378950827 / 2 ^ 52))"
  using round64_dyadic [of 3 "- 1"] round64_dyadic [of 5 "- 1"] round64_eval [of 0 "- (5 / 3)"]
  by (simp_all add: power_int_minus field_simps round_even_def Let_def)

text \<open>
  The lengths 2.5, 1.1, 2.5, 1.1, the second and the fourth as the double nearest to 1.1: the
  exact second argument is 1, the program computes 1.0000000000000002.
\<close>

lemma boundary_rounding_1:
  "round64 ((5 / 2 ^ 1) / (2476979795053773 / 2 ^ 51)) = Fin (2558863424642327 / 2 ^ 50)"
  using round64_eval [of "1" "(5 / 2 ^ 1) / (2476979795053773 / 2 ^ 51)"]
  by (simp add: round_even_def Let_def power_int_minus)

lemma boundary_rounding_2:
  "round64 ((5 / 2 ^ 1) * (5 / 2 ^ 1)) = Fin (25 / 2 ^ 2)"
  using round64_eval [of "2" "(5 / 2 ^ 1) * (5 / 2 ^ 1)"]
  by (simp add: round_even_def Let_def power_int_minus)

lemma boundary_rounding_3:
  "round64 ((2476979795053773 / 2 ^ 51) * (2476979795053773 / 2 ^ 51)) = Fin (5449355549118301 / 2 ^ 52)"
  using round64_eval [of "0" "(2476979795053773 / 2 ^ 51) * (2476979795053773 / 2 ^ 51)"]
  by (simp add: round_even_def Let_def power_int_minus)

lemma boundary_rounding_4:
  "round64 ((25 / 2 ^ 2) + (5449355549118301 / 2 ^ 52)) = Fin (8399213305045975 / 2 ^ 50)"
  using round64_eval [of "2" "(25 / 2 ^ 2) + (5449355549118301 / 2 ^ 52)"]
  by (simp add: round_even_def Let_def power_int_minus)

lemma boundary_rounding_5:
  "round64 ((8399213305045975 / 2 ^ 50) - (25 / 2 ^ 2)) = Fin (1362338887279575 / 2 ^ 50)"
  using round64_eval [of "0" "(8399213305045975 / 2 ^ 50) - (25 / 2 ^ 2)"]
  by (simp add: round_even_def Let_def power_int_minus)

lemma boundary_rounding_6:
  "round64 ((1362338887279575 / 2 ^ 50) + (5449355549118301 / 2 ^ 52)) = Fin (1362338887279575 / 2 ^ 49)"
  using round64_eval [of "1" "(1362338887279575 / 2 ^ 50) + (5449355549118301 / 2 ^ 52)"]
  by (simp add: round_even_def Let_def power_int_minus)

lemma boundary_rounding_7:
  "round64 ((1362338887279575 / 2 ^ 49) / 2) = Fin (1362338887279575 / 2 ^ 50)"
  using round64_eval [of "0" "(1362338887279575 / 2 ^ 49) / 2"]
  by (simp add: round_even_def Let_def power_int_minus)

lemma boundary_rounding_8:
  "round64 ((1362338887279575 / 2 ^ 50) / (2476979795053773 / 2 ^ 51)) = Fin (4953959590107545 / 2 ^ 52)"
  using round64_eval [of "0" "(1362338887279575 / 2 ^ 50) / (2476979795053773 / 2 ^ 51)"]
  by (simp add: round_even_def Let_def power_int_minus)

lemma boundary_rounding_9:
  "round64 ((4953959590107545 / 2 ^ 52) / (2476979795053773 / 2 ^ 51)) = Fin (4503599627370495 / 2 ^ 52)"
  using round64_eval [of "- 1" "(4953959590107545 / 2 ^ 52) / (2476979795053773 / 2 ^ 51)"]
  by (simp add: round_even_def Let_def power_int_minus)

lemma boundary_rounding_10:
  "round64 ((2476979795053773 / 2 ^ 51) + (5 / 2 ^ 1)) = Fin (8106479329266893 / 2 ^ 51)"
  using round64_eval [of "1" "(2476979795053773 / 2 ^ 51) + (5 / 2 ^ 1)"]
  by (simp add: round_even_def Let_def power_int_minus)

lemma boundary_rounding_11:
  "round64 ((8106479329266893 / 2 ^ 51) * (8106479329266893 / 2 ^ 51)) = Fin (1823957849085051 / 2 ^ 47)"
  using round64_eval [of "3" "(8106479329266893 / 2 ^ 51) * (8106479329266893 / 2 ^ 51)"]
  by (simp add: round_even_def Let_def power_int_minus)

lemma boundary_rounding_12:
  "round64 ((1823957849085051 / 2 ^ 47) - (25 / 2 ^ 2)) = Fin (944348546864251 / 2 ^ 47)"
  using round64_eval [of "2" "(1823957849085051 / 2 ^ 47) - (25 / 2 ^ 2)"]
  by (simp add: round_even_def Let_def power_int_minus)

lemma boundary_rounding_13:
  "round64 ((944348546864251 / 2 ^ 47) - (5449355549118301 / 2 ^ 52)) = Fin (6192449487634433 / 2 ^ 50)"
  using round64_eval [of "2" "(944348546864251 / 2 ^ 47) - (5449355549118301 / 2 ^ 52)"]
  by (simp add: round_even_def Let_def power_int_minus)

lemma boundary_rounding_14:
  "round64 (2 * (5 / 2 ^ 1)) = Fin (5)"
  using round64_eval [of "2" "2 * (5 / 2 ^ 1)"]
  by (simp add: round_even_def Let_def power_int_minus)

lemma boundary_rounding_15:
  "round64 (5 * (2476979795053773 / 2 ^ 51)) = Fin (11 / 2 ^ 1)"
  using round64_eval [of "2" "5 * (2476979795053773 / 2 ^ 51)"]
  by (simp add: round_even_def Let_def power_int_minus)

lemma boundary_rounding_16:
  "round64 ((6192449487634433 / 2 ^ 50) / (11 / 2 ^ 1)) = Fin (4503599627370497 / 2 ^ 52)"
  using round64_eval [of "0" "(6192449487634433 / 2 ^ 50) / (11 / 2 ^ 1)"]
  by (simp add: round_even_def Let_def power_int_minus)

lemmas boundary_roundings =
  boundary_rounding_1 boundary_rounding_2 boundary_rounding_3 boundary_rounding_4
  boundary_rounding_5 boundary_rounding_6 boundary_rounding_7 boundary_rounding_8
  boundary_rounding_9 boundary_rounding_10 boundary_rounding_11 boundary_rounding_12
  boundary_rounding_13 boundary_rounding_14 boundary_rounding_15 boundary_rounding_16

lemma boundary_run:
  "acos_arg_max (5 / 2) (11 / 10) (5 / 2) (11 / 10) = 1
   \<and> round64 (11 / 10) = Fin (2476979795053773 / 2 ^ 51)
   \<and> params_f64 (Fin (5 / 2)) (Fin (2476979795053773 / 2 ^ 51)) (Fin (5 / 2)) (Fin (2476979795053773 / 2 ^ 51)) =
       Inr (Fin (2558863424642327 / 2 ^ 50), Fin (2558863424642327 / 2 ^ 50), Fin (4503599627370495 / 2 ^ 52))
   \<and> acos_arg_max_f64 (Fin (5 / 2)) (Fin (2476979795053773 / 2 ^ 51)) (Fin (5 / 2)) (Fin (2476979795053773 / 2 ^ 51)) =
       Inr (Fin (4503599627370497 / 2 ^ 52))"
proof -
  have "acos_arg_max (5 / 2) (11 / 10) (5 / 2) (11 / 10) = 1"
    by (simp add: acos_arg_max_def power2_eq_square)
  moreover have "round64 (11 / 10) = Fin (2476979795053773 / 2 ^ 51)"
    using round64_eval [of 0 "11 / 10"] by (simp add: round_even_def Let_def power_int_minus)
  moreover have "params_f64 (Fin (5 / 2)) (Fin (2476979795053773 / 2 ^ 51)) (Fin (5 / 2)) (Fin (2476979795053773 / 2 ^ 51)) =
       Inr (Fin (2558863424642327 / 2 ^ 50), Fin (2558863424642327 / 2 ^ 50), Fin (4503599627370495 / 2 ^ 52))"
    using boundary_roundings by (simp add: params_f64_def fsub_def)
  moreover have "acos_arg_max_f64 (Fin (5 / 2)) (Fin (2476979795053773 / 2 ^ 51)) (Fin (5 / 2)) (Fin (2476979795053773 / 2 ^ 51)) =
       Inr (Fin (4503599627370497 / 2 ^ 52))"
    using boundary_roundings by (simp add: acos_arg_max_f64_def fsub_def)
  ultimately show ?thesis by blast
qed



subsection \<open>What the solver does with the value of the root-finder\<close>



subsection \<open>What the function hands on\<close>

lemma drawframe_frame_at:
  "0 \<le> n \<Longrightarrow> n < int (length theta4) \<Longrightarrow>
     drawframe l1 l2 l4 theta4 n = Inr (frame_at l1 l2 l4 n (theta4 ! nat n))"
  by (simp add: drawframe_def frame_at_def py_getitem_def Let_def)

lemma draw_all_frames_of:
  assumes "\<forall>n \<in> set ns. 0 \<le> n \<and> n < int (length theta4)"
  shows "draw_all l1 l2 l4 theta4 ns = Inr (frames_of l1 l2 l4 theta4 ns)"
  using assms by (induction ns) (simp_all add: frames_of_def drawframe_frame_at)

lemma calculate_linkage_frames:
  assumes "solve_angles fsolve l1 l2 l3 l4 = Inr (Some (theta4, theta3))"
  shows "calculate_linkage fsolve l1 l2 l3 l4 = Inr (HTML (frames_of l1 l2 l4 theta4 (py_range 0 360)))"
proof -
  have "length theta4 = 361"
    using solve_angles_Some(1) [OF assms] by simp
  then have "\<forall>n \<in> set (py_range 0 360). 0 \<le> n \<and> n < int (length theta4)"
    by (auto simp: set_py_range)
  from draw_all_frames_of [OF this] show ?thesis
    using assms by (simp add: calculate_linkage_def)
qed

text \<open>
  C7. The claim is that on success the 361 samples \<open>(theta2, theta3, theta4)\<close> are what is
  handed to the rendering. For the lengths 3, 1, 3, 1 and the root-finder value \<open>- 90\<close> the
  loop ends with 361 entries in each list, and what \<open>calculate_linkage\<close> returns is the
  animation of 360 frames, \<open>frames=360\<close>, drawn from \<open>theta4[0]\<close> to \<open>theta4[359]\<close>: the
  list \<open>theta3\<close> and the sample for \<open>theta2 = 360\<close> are not in it.
\<close>

theorem profile_not_handed_on_counterexample:
  "solve_angles (const_finder (- 90)) 3 1 3 1 =
     Inr (Some (map (theta4_at (const_finder (- 90)) 3 1 3 1) (py_range 0 361),
                map (theta3_at (const_finder (- 90)) 3 1 3 1) (py_range 0 361)))
   \<and> length (map (theta4_at (const_finder (- 90)) 3 1 3 1) (py_range 0 361)) = 361
   \<and> calculate_linkage (const_finder (- 90)) 3 1 3 1 =
       Inr (HTML (frames_of 3 1 1 (map (theta4_at (const_finder (- 90)) 3 1 3 1) (py_range 0 361))
                   (py_range 0 360)))
   \<and> length (frames_of 3 1 1 (map (theta4_at (const_finder (- 90)) 3 1 3 1) (py_range 0 361))
               (py_range 0 360)) = 360"
  using long_coupler_run calculate_linkage_frames [OF long_coupler_run]
  by (simp add: frames_of_def)

text \<open>
  C7, as amended. In a run that reaches the end of the loop the solver has computed the lists
  \<open>theta3\<close> and \<open>theta4\<close> of 361 entries each, the entry of index \<open>i\<close> belonging to the
  driving angle \<open>theta2 = i\<close>, for 0, 1, ..., 360 in ascending order. What
  \<open>calculate_linkage\<close> returns is the animation of 360 frames, the frame \<open>n\<close> drawn from
  \<open>n\<close> and \<open>theta4[n]\<close> for \<open>n\<close> from 0 to 359; \<open>theta3\<close> and the sample for
  \<open>theta2 = 360\<close> are computed and not handed on.
\<close>

theorem lists_of_361_and_animation_of_360:
  assumes "solve_angles fsolve l1 l2 l3 l4 = Inr (Some (theta4, theta3))"
  shows "length theta3 = 361 \<and> length theta4 = 361
       \<and> (\<forall>i < 361. theta4 ! i = theta4_at fsolve l1 l2 l3 l4 (int i)
                   \<and> theta3 ! i = theta3_value l1 l2 l3 l4 (int i) (theta4 ! i))
       \<and> calculate_linkage fsolve l1 l2 l3 l4 =
           Inr (HTML (frames_of l1 l2 l4 theta4 (py_range 0 360)))
       \<and> length (frames_of l1 l2 l4 theta4 (py_range 0 360)) = 360"
proof -
  have t4: "theta4 = map (theta4_at fsolve l1 l2 l3 l4) (py_range 0 361)"
    and t3: "theta3 = map (theta3_at fsolve l1 l2 l3 l4) (py_range 0 361)"
    by (rule solve_angles_Some [OF assms])+
  have len: "length theta3 = 361" "length theta4 = 361"
    unfolding t3 t4 by simp_all
  have nth: "theta4 ! i = theta4_at fsolve l1 l2 l3 l4 (int i)"
    "theta3 ! i = theta3_at fsolve l1 l2 l3 l4 (int i)" if "i < 361" for i
    using that unfolding t3 t4 by (simp_all add: nth_py_range)
  show ?thesis
    using len nth calculate_linkage_frames [OF assms]
    by (simp add: theta3_at_def frames_of_def)
qed

theorem lists_of_361_and_animation_of_360_witness:
  "solve_angles (const_finder (- 90)) 3 1 3 1 =
     Inr (Some (map (theta4_at (const_finder (- 90)) 3 1 3 1) (py_range 0 361),
                map (theta3_at (const_finder (- 90)) 3 1 3 1) (py_range 0 361)))
   \<and> length (map (theta3_at (const_finder (- 90)) 3 1 3 1) (py_range 0 361)) = 361
   \<and> length (map (theta4_at (const_finder (- 90)) 3 1 3 1) (py_range 0 361)) = 361
   \<and> map (theta4_at (const_finder (- 90)) 3 1 3 1) (py_range 0 361) ! 360 = - 90
   \<and> calculate_linkage (const_finder (- 90)) 3 1 3 1 =
       Inr (HTML (frames_of 3 1 1 (map (theta4_at (const_finder (- 90)) 3 1 3 1) (py_range 0 361))
                   (py_range 0 360)))"
proof -
  have "py_range 0 361 ! 360 = 360"
    using nth_map_py_range [of 360 361 "\<lambda>x. x"] by simp
  then show ?thesis
    using lists_of_361_and_animation_of_360 [OF long_coupler_run] long_coupler_run
    by simp
qed

end
